theory Spec2Isabelle
  imports Complex_Main
begin

section \<open>Python values\<close>

text \<open>
  The repository (parade-weather) is Python. Its numbers are Python floats; they are
  modelled here as exact reals, so that \<open>+\<close>, \<open>*\<close>, \<open>/\<close>, \<open>sin\<close>, \<open>cos\<close>, \<open>ln\<close>, \<open>exp\<close> are
  the mathematical operations. Rounding error of binary64, overflow to infinity and NaN
  are therefore outside this model; what the model keeps of Python is every exception
  the arithmetic can raise on real numbers (division by zero, logarithm of a
  non-positive number) and the decimal rounding of \<open>round(x, n)\<close>.
\<close>

datatype py_error = ZeroDivisionError | ValueError string

text \<open>\<open>x / y\<close> on floats raises ZeroDivisionError when \<open>y\<close> is zero.\<close>

definition py_div :: "real \<Rightarrow> real \<Rightarrow> py_error + real" where
  "py_div x y = (if y = 0 then Inl ZeroDivisionError else Inr (x / y))"

text \<open>\<open>math.log(x)\<close> raises ValueError ("math domain error") when \<open>x \<le> 0\<close>.\<close>

definition math_log :: "real \<Rightarrow> py_error + real" where
  "math_log x = (if x \<le> 0 then Inl (ValueError ''math domain error'') else Inr (ln x))"

text \<open>
  \<open>round(x, n)\<close> on a float rounds the exact value of \<open>x\<close> to \<open>n\<close> decimals, a tie going
  to the even neighbour.
\<close>

definition round_half_even :: "real \<Rightarrow> int" where
  "round_half_even x =
     (let f = \<lfloor>x\<rfloor>; r = x - of_int f
      in if r < 1/2 then f else if 1/2 < r then f + 1 else if even f then f else f + 1)"

definition py_round :: "real \<Rightarrow> nat \<Rightarrow> real" where
  "py_round x n = of_int (round_half_even (x * 10 ^ n)) / 10 ^ n"

text \<open>\<open>float(b)\<close> of a bool.\<close>

definition float_of_bool :: "bool \<Rightarrow> real" where
  "float_of_bool b = (if b then 1 else 0)"

text \<open>
  A dict keeps its keys distinct and in insertion order: an association list.
  \<open>d[k] = v\<close> replaces the value of a key that is there and appends a new key at the end.
\<close>

type_synonym ('k, 'v) dict = "('k \<times> 'v) list"

fun dict_set :: "('k, 'v) dict \<Rightarrow> 'k \<Rightarrow> 'v \<Rightarrow> ('k, 'v) dict" where
  "dict_set [] k v = [(k, v)]"
| "dict_set ((k', v') # d) k v =
     (if k' = k then (k, v) # d else (k', v') # dict_set d k v)"

section \<open>utils/fuse.py\<close>

text \<open>
  \<^verbatim>\<open>alpha = max(0.3, min(0.9, 1.0 - (lead_hours/240.0)))\<close>
\<close>

definition alpha :: "int \<Rightarrow> real" where
  "alpha lead_hours = max 0.3 (min 0.9 (1.0 - (of_int lead_hours / 240.0)))"

text \<open>
  The body of the loop, for one value \<open>v\<close>:
  \<^verbatim>\<open>round( max(0.0, min(1.0, alpha*v + (1-alpha)*0.3*v + 0.05)), 2 )\<close>
\<close>

definition fuse_value :: "real \<Rightarrow> real \<Rightarrow> real" where
  "fuse_value a v = py_round (max 0.0 (min 1.0 (a * v + (1 - a) * 0.3 * v + 0.05))) 2"

text \<open>
  \<^verbatim>\<open>fused = {}
for k, v in probs.items():
    fused[k] = ...
return fused\<close>
\<close>

definition fuse_probabilities :: "('k, real) dict \<Rightarrow> int \<Rightarrow> ('k, real) dict" where
  "fuse_probabilities probs lead_hours =
     (let a = alpha lead_hours
      in fold (\<lambda>(k, v) fused. dict_set fused k (fuse_value a v)) probs [])"



section \<open>utils/indices.py\<close>

text \<open>
  \<^verbatim>\<open>t_f = t_c * 9/5 + 32
hi_f = -42.379 + 2.04901523*t_f + 10.14333127*rh - 0.22475541*t_f*rh \
       - 6.83783e-3*t_f*t_f - 5.481717e-2*rh*rh + 1.22874e-3*t_f*t_f*rh \
       + 8.5282e-4*t_f*rh*rh - 1.99e-6*t_f*t_f*rh*rh
return (hi_f - 32) * 5/9\<close>
\<close>

definition compute_heat_index :: "real \<Rightarrow> real \<Rightarrow> real" where
  "compute_heat_index t_c rh =
     (let t_f = t_c * 9 / 5 + 32;
          hi_f = - 42.379 + 2.04901523 * t_f + 10.14333127 * rh - 0.22475541 * t_f * rh
                 - 0.00683783 * t_f * t_f - 0.05481717 * rh * rh + 0.00122874 * t_f * t_f * rh
                 + 0.00085282 * t_f * rh * rh - 0.00000199 * t_f * t_f * rh * rh
      in (hi_f - 32) * 5 / 9)"

text \<open>
  \<^verbatim>\<open>v_kmh = wind_ms * 3.6
if v_kmh < 4.8 or t_c > 10:
    return t_c
return 13.12 + 0.6215*t_c - 11.37*(v_kmh**0.16) + 0.3965*t_c*(v_kmh**0.16)\<close>
  \<open>x ** 0.16\<close> on floats is \<open>x powr 0.16\<close> for a positive \<open>x\<close> (for a negative one Python
  returns a complex number); the power is only evaluated after the test, where
  \<open>v_kmh \<ge> 4.8\<close>.
\<close>

definition compute_wind_chill :: "real \<Rightarrow> real \<Rightarrow> real" where
  "compute_wind_chill t_c wind_ms =
     (let v_kmh = wind_ms * 3.6
      in if v_kmh < 4.8 \<or> t_c > 10 then t_c
         else 13.12 + 0.6215 * t_c - 11.37 * (v_kmh powr 0.16)
              + 0.3965 * t_c * (v_kmh powr 0.16))"

text \<open>
  \<^verbatim>\<open>a, b = 17.62, 243.12
gamma = (a*t_c/(b+t_c)) + math.log(max(rh,1e-6)/100.0)
return (b*gamma)/(a-gamma)\<close>
  The two divisions and the logarithm are the places that can raise, in this order.
\<close>

definition compute_dew_point :: "real \<Rightarrow> real \<Rightarrow> py_error + real" where
  "compute_dew_point t_c rh =
     (let a = 17.62; b = 243.12
      in case py_div (a * t_c) (b + t_c) of
           Inl e \<Rightarrow> Inl e
         | Inr q \<Rightarrow>
             (case math_log (max rh 0.000001 / 100.0) of
                Inl e \<Rightarrow> Inl e
              | Inr l \<Rightarrow> (let gamma = q + l in py_div (b * gamma) (a - gamma))))"


section \<open>services/climatology.py\<close>

record band =
  p10 :: real
  p50 :: real
  p90 :: real

record percentiles =
  HI :: band
  WC :: band
  WIND :: band
  PRCP :: band

text \<open>
  The local variables of \<open>get_percentiles\<close>, each as a function of the arguments it
  depends on.
  \<^verbatim>\<open>offset = 200
if lat < 0:
    offset = (offset + 182) % 365
theta = 2 * math.pi * ((doy - offset) / 365.0)
s = math.sin(theta)
c = math.cos(theta)
mean_t = 18.0 - 0.12 * abs(lat)
amp_t = max(6.0, 12.0 - 0.08 * abs(lat))
t50 = mean_t + amp_t * s\<close>
\<close>

definition offset :: "real \<Rightarrow> int" where
  "offset lat = (if lat < 0 then (200 + 182) mod 365 else 200)"

definition theta :: "real \<Rightarrow> int \<Rightarrow> real" where
  "theta lat doy = 2 * pi * (of_int (doy - offset lat) / 365.0)"

definition mean_t :: "real \<Rightarrow> real" where
  "mean_t lat = 18.0 - 0.12 * \<bar>lat\<bar>"

definition amp_t :: "real \<Rightarrow> real" where
  "amp_t lat = max 6.0 (12.0 - 0.08 * \<bar>lat\<bar>)"

definition t50 :: "real \<Rightarrow> int \<Rightarrow> real" where
  "t50 lat doy = mean_t lat + amp_t lat * sin (theta lat doy)"

text \<open>
  \<^verbatim>\<open>mean_wind = 4.0 + 0.03 * abs(lat)
amp_wind = 1.0 + 0.01 * abs(lat)
wind_p50 = max(0.5, mean_wind + 0.5 * c * amp_wind)\<close>
\<close>

definition wind_p50 :: "real \<Rightarrow> int \<Rightarrow> real" where
  "wind_p50 lat doy =
     (let mean_wind = 4.0 + 0.03 * \<bar>lat\<bar>;
          amp_wind = 1.0 + 0.01 * \<bar>lat\<bar>
      in max 0.5 (mean_wind + 0.5 * cos (theta lat doy) * amp_wind))"

text \<open>
  \<^verbatim>\<open>wet_season = max(0.0, s)
coastiness = 0.3 + 0.2 * (0.5 + 0.5 * math.sin(math.radians(lon)))
prcp_p50 = 1.0 + 6.0 * wet_season * coastiness\<close>
  \<open>math.radians(x)\<close> is \<open>x * pi / 180\<close>.
\<close>

definition wet_season :: "real \<Rightarrow> int \<Rightarrow> real" where
  "wet_season lat doy = max 0.0 (sin (theta lat doy))"

definition coastiness :: "real \<Rightarrow> real" where
  "coastiness lon = 0.3 + 0.2 * (0.5 + 0.5 * sin (lon * pi / 180))"

definition prcp_p50 :: "real \<Rightarrow> real \<Rightarrow> int \<Rightarrow> real" where
  "prcp_p50 lat lon doy = 1.0 + 6.0 * wet_season lat doy * coastiness lon"

text \<open>
  The rest of the function: the bands around these medians, each rounded to one decimal.
  \<^verbatim>\<open>hi_p50 = t50
hi_p90 = hi_p50 + 4.0
hi_p10 = hi_p50 - 4.0
wc_p50 = t50 - 2.0
wc_p10 = wc_p50 - 6.0
wc_p90 = wc_p50 + 6.0
wind_p90 = wind_p50 + 3.0
wind_p10 = max(0.5, wind_p50 - 2.0)
prcp_p90 = prcp_p50 + 6.0 * (0.6 + 0.4 * wet_season)
prcp_p10 = max(0.0, prcp_p50 - 1.5)
return {
    "HI":   {"p10": round(hi_p10, 1),  "p50": round(hi_p50, 1),  "p90": round(hi_p90, 1)},
    "WC":   {"p10": round(wc_p10, 1),  "p50": round(wc_p50, 1),  "p90": round(wc_p90, 1)},
    "WIND": {"p10": round(wind_p10, 1),"p50": round(wind_p50, 1),"p90": round(wind_p90, 1)},
    "PRCP": {"p10": round(prcp_p10, 1),"p50": round(prcp_p50, 1),"p90": round(prcp_p90, 1)}
}\<close>
\<close>

definition get_percentiles :: "real \<Rightarrow> real \<Rightarrow> int \<Rightarrow> percentiles" where
  "get_percentiles lat lon doy =
     (let hi_p50 = t50 lat doy;
          hi_p90 = hi_p50 + 4.0;
          hi_p10 = hi_p50 - 4.0;
          wc_p50 = t50 lat doy - 2.0;
          wc_p10 = wc_p50 - 6.0;
          wc_p90 = wc_p50 + 6.0;
          wind_p90 = wind_p50 lat doy + 3.0;
          wind_p10 = max 0.5 (wind_p50 lat doy - 2.0);
          prcp_p90 = prcp_p50 lat lon doy + 6.0 * (0.6 + 0.4 * wet_season lat doy);
          prcp_p10 = max 0.0 (prcp_p50 lat lon doy - 1.5)
      in \<lparr>HI = \<lparr>p10 = py_round hi_p10 1, p50 = py_round hi_p50 1, p90 = py_round hi_p90 1\<rparr>,
          WC = \<lparr>p10 = py_round wc_p10 1, p50 = py_round wc_p50 1, p90 = py_round wc_p90 1\<rparr>,
          WIND = \<lparr>p10 = py_round wind_p10 1, p50 = py_round (wind_p50 lat doy) 1,
                  p90 = py_round wind_p90 1\<rparr>,
          PRCP = \<lparr>p10 = py_round prcp_p10 1, p50 = py_round (prcp_p50 lat lon doy) 1,
                  p90 = py_round prcp_p90 1\<rparr>\<rparr>)"

section \<open>main.py\<close>

text \<open>
  The dict that \<open>get_power_daily\<close> returns. \<open>query\<close> reads \<open>tmax\<close>, \<open>tmin\<close>, \<open>tavg\<close>,
  \<open>rh\<close> and \<open>wind\<close> with \<open>power[...]\<close> and the other keys with \<open>power.get(..., default)\<close>:
  those are optional fields.
\<close>

record power_daily =
  tmax :: real
  tmin :: real
  tavg :: real
  rh :: real
  wind :: real
  precip :: "real option"
  pop :: "real option"
  lead_hours :: "int option"
  spread :: "real option"

definition power_get :: "'a option \<Rightarrow> 'a \<Rightarrow> 'a" where
  "power_get field dflt = (case field of None \<Rightarrow> dflt | Some v \<Rightarrow> v)"

text \<open>
  Lines 46 to 54, the dict \<open>probs\<close>, from the three indices, the observation and the
  percentiles. \<open>get_percentiles\<close> always returns the keys \<open>p10\<close> and \<open>p90\<close>, so the defaults
  of \<open>pct["HI"].get("p90", 32)\<close> and its siblings are never taken.
  \<^verbatim>\<open>probs = {
    "very_hot": float(hi > max(pct["HI"].get("p90", 32), 32.0)),
    "very_cold": float(wc < min(pct["WC"].get("p10", 5), 5.0)),
    "very_windy": float(power["wind"] > max(pct["WIND"].get("p90", 10.0), 10.0)),
    "very_wet": float(
        (power.get("pop", 0) >= 50) or (power.get("precip", 0) >= max(pct["PRCP"].get("p90", 5), 5))
    ),
    "very_uncomfortable": float((dp >= 20.0) or (hi >= 32.0) or (wc <= 0.0))
}\<close>
\<close>

definition risk_probs ::
  "real \<Rightarrow> real \<Rightarrow> real \<Rightarrow> power_daily \<Rightarrow> percentiles \<Rightarrow> (string, real) dict" where
  "risk_probs hi wc dp pw pct =
     [(''very_hot'', float_of_bool (hi > max (p90 (HI pct)) 32.0)),
      (''very_cold'', float_of_bool (wc < min (p10 (WC pct)) 5.0)),
      (''very_windy'', float_of_bool (wind pw > max (p90 (WIND pct)) 10.0)),
      (''very_wet'', float_of_bool
         (power_get (pop pw) 0 \<ge> 50 \<or> power_get (precip pw) 0 \<ge> max (p90 (PRCP pct)) 5)),
      (''very_uncomfortable'', float_of_bool (dp \<ge> 20.0 \<or> hi \<ge> 32.0 \<or> wc \<le> 0.0))]"

text \<open>
  \<open>sorted(xs, key=f, reverse=True)\<close>: the sort is stable, and with \<open>reverse=True\<close> it
  still keeps elements of equal key in their original order (the list is reversed, sorted
  and reversed again). \<open>sort_key\<close> is a stable insertion sort.
\<close>

definition sorted_reverse :: "('a \<Rightarrow> 'b::linorder) \<Rightarrow> 'a list \<Rightarrow> 'a list" where
  "sorted_reverse key xs = rev (sort_key key (rev xs))"

text \<open>
  \<open>d[k]\<close> for a key of \<open>d\<close>. For a key that is absent Python raises KeyError; the one use
  below looks up keys taken from \<open>d\<close> itself (lemma \<open>top_risks_lookup\<close>).
\<close>

definition dict_item :: "('k, real) dict \<Rightarrow> 'k \<Rightarrow> real" where
  "dict_item d k = (case map_of d k of Some v \<Rightarrow> v | None \<Rightarrow> 0)"

text \<open>
  Line 82:
  \<^verbatim>\<open>sorted([k for k,v in fused.items() if v>0.3], key=lambda k: fused[k], reverse=True)[:2]\<close>
\<close>

definition top_risks :: "('k, real) dict \<Rightarrow> 'k list" where
  "top_risks fused =
     take 2 (sorted_reverse (\<lambda>k. dict_item fused k) [k. (k, v) \<leftarrow> fused, v > 0.3])"

text \<open>
  \<open>query\<close>, from the observation on: the indices (the dew point can raise), the
  percentiles, \<open>probs\<close>, the fusion and \<open>top_risks\<close>. The day of the year is taken as an
  argument; the drivers, the confidence and the suggestions are left out.
\<close>

definition query ::
  "real \<Rightarrow> real \<Rightarrow> int \<Rightarrow> power_daily \<Rightarrow> py_error + ((string, real) dict \<times> string list)" where
  "query lat lon doy pw =
     (let hi = compute_heat_index (tmax pw) (rh pw);
          wc = compute_wind_chill (tmin pw) (wind pw)
      in case compute_dew_point (tavg pw) (rh pw) of
           Inl e \<Rightarrow> Inl e
         | Inr dp \<Rightarrow>
             (let pct = get_percentiles lat lon doy;
                  probs = risk_probs hi wc dp pw pct;
                  fused = fuse_probabilities probs (power_get (lead_hours pw) 72)
              in Inr (fused, top_risks fused)))"

section \<open>The fusion formula in the words of the specification\<close>






section \<open>The ranking of the risks in the words of the specification\<close>

text \<open>
  The position of a category in the order of the keys, and the order "descending by fused
  probability, ties broken by the position of the category".
\<close>

definition position :: "'k list \<Rightarrow> 'k \<Rightarrow> nat" where
  "position ks k = length (takeWhile (\<lambda>x. x \<noteq> k) ks)"

definition ranks_before :: "('k, real) dict \<Rightarrow> 'k \<Rightarrow> 'k \<Rightarrow> bool" where
  "ranks_before fused a b =
     (dict_item fused b < dict_item fused a
      \<or> (dict_item fused a = dict_item fused b
          \<and> position (map fst fused) a < position (map fst fused) b))"

section \<open>Rounding\<close>

lemma round_half_even_of_int: "round_half_even (of_int n) = n"
  by (simp add: round_half_even_def)

lemma round_half_even_mono:
  assumes "x \<le> y"
  shows "round_half_even x \<le> round_half_even y"
proof (cases "\<lfloor>x\<rfloor> = \<lfloor>y\<rfloor>")
  case True
  with assms show ?thesis
    by (auto simp: round_half_even_def Let_def)
next
  case False
  with assms have lt: "\<lfloor>x\<rfloor> + 1 \<le> \<lfloor>y\<rfloor>"
    using floor_mono [of x y] by linarith
  have "round_half_even x \<le> \<lfloor>x\<rfloor> + 1"
    by (simp add: round_half_even_def Let_def)
  moreover have "\<lfloor>y\<rfloor> \<le> round_half_even y"
    by (simp add: round_half_even_def Let_def)
  ultimately show ?thesis using lt by linarith
qed

lemma py_round_mono: "x \<le> y \<Longrightarrow> py_round x n \<le> py_round y n"
  by (simp add: py_round_def divide_right_mono round_half_even_mono)

lemma py_round_fixed: "py_round (of_int m / 10 ^ n) n = of_int m / 10 ^ n"
  by (simp add: py_round_def round_half_even_of_int)

section \<open>Fusion: \<open>fuse_probabilities\<close>\<close>

lemma dict_set_fresh: "k \<notin> fst ` set d \<Longrightarrow> dict_set d k v = d @ [(k, v)]"
  by (induction d) auto

lemma fold_dict_set_distinct:
  "distinct (map fst acc @ map fst probs) \<Longrightarrow>
   fold (\<lambda>(k, v) fused. dict_set fused k (g v)) probs acc = acc @ map (\<lambda>(k, v). (k, g v)) probs"
proof (induction probs arbitrary: acc)
  case Nil
  then show ?case by simp
next
  case (Cons p probs)
  obtain k v where p: "p = (k, v)" by (cases p)
  from Cons.prems have fresh: "k \<notin> fst ` set acc" by (auto simp: p)
  from Cons.prems have "distinct (map fst (acc @ [(k, g v)]) @ map fst probs)"
    by (auto simp: p)
  then have "fold (\<lambda>(k, v) fused. dict_set fused k (g v)) probs (acc @ [(k, g v)])
             = (acc @ [(k, g v)]) @ map (\<lambda>(k, v). (k, g v)) probs"
    by (rule Cons.IH)
  then show ?case by (simp add: p dict_set_fresh [OF fresh])
qed

lemma fuse_probabilities_map:
  "distinct (map fst probs) \<Longrightarrow>
   fuse_probabilities probs lead = map (\<lambda>(k, v). (k, fuse_value (alpha lead) v)) probs"
  using fold_dict_set_distinct [of "[]" probs "fuse_value (alpha lead)"]
  by (simp add: fuse_probabilities_def)






lemma alpha_bounds: "3/10 \<le> alpha lead \<and> alpha lead \<le> 9/10"
  by (simp add: alpha_def max_def min_def)

lemma fuse_value_zero: "fuse_value a 0 = 5/100"
  using round_half_even_of_int [of 5] by (simp add: fuse_value_def py_round_def)

lemma fuse_value_mono:
  assumes "a2 \<le> a1"
  shows "fuse_value a2 1 \<le> fuse_value a1 1"
proof -
  have "a2 * 1 + (1 - a2) * 0.3 * 1 + 0.05 \<le> a1 * 1 + (1 - a1) * 0.3 * 1 + 0.05"
    using assms by (simp add: field_simps)
  then have "max 0.0 (min 1.0 (a2 * 1 + (1 - a2) * 0.3 * 1 + 0.05))
             \<le> max 0.0 (min 1.0 (a1 * 1 + (1 - a1) * 0.3 * 1 + 0.05))"
    by (intro max.mono min.mono order_refl)
  then show ?thesis
    unfolding fuse_value_def by (rule py_round_mono)
qed

lemma fuse_value_one_bounds:
  assumes "3/10 \<le> a" "a \<le> 9/10"
  shows "56/100 \<le> fuse_value a 1 \<and> fuse_value a 1 \<le> 98/100"
proof -
  have "fuse_value (3/10) 1 \<le> fuse_value a 1" "fuse_value a 1 \<le> fuse_value (9/10) 1"
    using assms by (auto intro: fuse_value_mono)
  moreover have "fuse_value (3/10) 1 = 56/100"
    using round_half_even_of_int [of 56] by (simp add: fuse_value_def py_round_def)
  moreover have "fuse_value (9/10) 1 = 98/100"
    using round_half_even_of_int [of 98] by (simp add: fuse_value_def py_round_def)
  ultimately show ?thesis by simp
qed


lemma dict_item_map:
  "distinct (map fst d) \<Longrightarrow> (k, v) \<in> set d \<Longrightarrow> dict_item (map (\<lambda>(k, v). (k, g v)) d) k = g v"
  by (induction d) (auto simp: dict_item_def rev_image_eqI)




text \<open>
  Claim C3. For every probability map whose raw values are all 0 or 1 and every
  \<open>lead_hours\<close>, the fused map has the same keys, every fused value lies in [0.05, 1.0] and
  is not 0, and a raw value of 0.0 is fused to exactly 0.05.
\<close>

theorem fuse_floor:
  assumes "distinct (map fst probs)" and "\<forall>v \<in> snd ` set probs. v = 0 \<or> v = 1"
  shows "map fst (fuse_probabilities probs lead) = map fst probs
       \<and> (\<forall>v \<in> snd ` set (fuse_probabilities probs lead). 0.05 \<le> v \<and> v \<le> 1 \<and> v \<noteq> 0)
       \<and> (\<forall>k. (k, 0) \<in> set probs \<longrightarrow> (k, 0.05) \<in> set (fuse_probabilities probs lead))"
proof -
  let ?a = "alpha lead"
  have eq: "fuse_probabilities probs lead = map (\<lambda>(k, v). (k, fuse_value ?a v)) probs"
    using assms(1) by (rule fuse_probabilities_map)
  have keys: "map fst (fuse_probabilities probs lead) = map fst probs"
    by (simp add: eq case_prod_unfold comp_def)
  have rng: "0.05 \<le> fuse_value ?a v \<and> fuse_value ?a v \<le> 1 \<and> fuse_value ?a v \<noteq> 0"
    if "v = 0 \<or> v = 1" for v
    using that fuse_value_zero [of ?a] fuse_value_one_bounds [of ?a] alpha_bounds [of lead]
    by auto
  have vals: "\<forall>v \<in> snd ` set (fuse_probabilities probs lead). 0.05 \<le> v \<and> v \<le> 1 \<and> v \<noteq> 0"
  proof
    fix w assume "w \<in> snd ` set (fuse_probabilities probs lead)"
    then obtain k v where "(k, v) \<in> set probs" and w: "w = fuse_value ?a v"
      by (auto simp: eq)
    then have "v = 0 \<or> v = 1" using assms(2) by force
    then show "0.05 \<le> w \<and> w \<le> 1 \<and> w \<noteq> 0" unfolding w by (rule rng)
  qed
  have zero: "(k, 0.05) \<in> set (fuse_probabilities probs lead)" if "(k, 0) \<in> set probs" for k
  proof -
    have "(k, fuse_value ?a 0) \<in> (\<lambda>(k, v). (k, fuse_value ?a v)) ` set probs"
      using that by force
    then show ?thesis by (simp add: eq fuse_value_zero)
  qed
  show ?thesis using keys vals zero by blast
qed

theorem fuse_floor_witness:
  "distinct (map fst [(''very_wet'', 0::real), (''very_hot'', 1)])
   \<and> snd ` set [(''very_wet'', 0::real), (''very_hot'', 1)] \<subseteq> {0, 1}
   \<and> (''very_wet'', 0.05) \<in> set (fuse_probabilities [(''very_wet'', 0), (''very_hot'', 1)] 72)
   \<and> map fst (fuse_probabilities [(''very_wet'', 0), (''very_hot'', 1)] 72)
       = [''very_wet'', ''very_hot'']"
  using fuse_floor [of "[(''very_wet'', 0), (''very_hot'', 1)]" 72] by simp

lemma alpha_antimono: "l1 \<le> l2 \<Longrightarrow> alpha l2 \<le> alpha l1"
  unfolding alpha_def by (intro max.mono min.mono order_refl) simp

text \<open>
  Claim C9. For a category whose raw value is 1.0 and two lead times whose weights
  satisfy \<open>alpha l1 \<ge> alpha l2\<close>, the fused value at \<open>l1\<close> is at least the fused value at
  \<open>l2\<close>, the rounding to 2 decimals included.
\<close>

theorem fuse_monotone_in_alpha:
  assumes "distinct (map fst probs)" and "(k, 1) \<in> set probs" and "alpha l2 \<le> alpha l1"
  shows "fuse_value (alpha l2) 1 \<le> fuse_value (alpha l1) 1
       \<and> dict_item (fuse_probabilities probs l2) k = fuse_value (alpha l2) 1
       \<and> dict_item (fuse_probabilities probs l1) k = fuse_value (alpha l1) 1
       \<and> dict_item (fuse_probabilities probs l2) k \<le> dict_item (fuse_probabilities probs l1) k"
proof -
  have item: "dict_item (fuse_probabilities probs l) k = fuse_value (alpha l) 1" for l
    using assms(1,2) by (simp add: fuse_probabilities_map dict_item_map)
  show ?thesis
    using fuse_value_mono [OF assms(3)] by (simp add: item)
qed

theorem fuse_monotone_in_alpha_witness:
  "distinct (map fst [(''very_hot'', 1::real)])
   \<and> (''very_hot'', 1) \<in> set [(''very_hot'', 1::real)]
   \<and> alpha 240 \<le> alpha 24
   \<and> dict_item (fuse_probabilities [(''very_hot'', 1)] 240) ''very_hot''
       \<le> dict_item (fuse_probabilities [(''very_hot'', 1)] 24) ''very_hot''"
proof -
  have a: "alpha 240 \<le> alpha 24" by (simp add: alpha_def)
  show ?thesis
    using fuse_monotone_in_alpha [of "[(''very_hot'', 1)]" "''very_hot''" 240 24] a by simp
qed

section \<open>Fusion: \<open>combine_sources\<close>\<close>












section \<open>Indices: wind chill\<close>



section \<open>Indices: dew point and humidex\<close>

lemma floored_humidity_log:
  "\<exists>l. math_log (max h 0.000001 / 100.0) = Inr l \<and> (h \<le> 100 \<longrightarrow> l \<le> 0)"
proof -
  have pos: "0 < max h 0.000001 / 100.0" by (simp add: max_def)
  moreover have "ln (max h 0.000001 / 100.0) \<le> 0" if "h \<le> 100"
  proof -
    have "max h 0.000001 / 100.0 \<le> 1" using that by (simp add: max_def)
    with pos show ?thesis by simp
  qed
  ultimately show ?thesis by (simp add: math_log_def)
qed

lemma dew_point_raises_iff:
  "(\<exists>e. compute_dew_point t h = Inl e) \<longleftrightarrow>
   (243.12 + t = 0 \<or> 17.62 * t / (243.12 + t) + ln (max h 0.000001 / 100.0) = 17.62)"
proof -
  obtain l where l: "math_log (max h 0.000001 / 100.0) = Inr l"
    using floored_humidity_log by blast
  then have "l = ln (max h 0.000001 / 100.0)"
    by (simp add: math_log_def split: if_splits)
  with l show ?thesis
    by (auto simp: compute_dew_point_def py_div_def Let_def)
qed

lemma dew_point_defined:
  assumes t: "- 243.12 < t" and h: "h \<le> 100"
  shows "\<exists>d. compute_dew_point t h = Inr d \<and> - 243.12 < d \<and> d \<le> t"
proof -
  obtain l where l: "math_log (max h 0.000001 / 100.0) = Inr l" and l0: "l \<le> 0"
    using floored_humidity_log [of h] h by blast
  define A :: real where "A = 17.62"
  define B :: real where "B = 243.12"
  define b where "b = B + t"
  define q where "q = A * t / b"
  define g where "g = q + l"
  have A0: "0 < A" and B0: "0 < B" by (simp_all add: A_def B_def)
  have bt: "0 < b" using t by (simp add: b_def B_def)
  have qb: "q * b = A * t" using bt by (simp add: q_def)
  have "(A - q) * b = A * b - q * b" by (simp only: left_diff_distrib)
  also have "\<dots> = A * b - A * t" by (simp only: qb)
  also have "\<dots> = A * B" by (simp add: b_def algebra_simps)
  finally have "0 < (A - q) * b" using A0 B0 by simp
  then have aq: "0 < A - q" using bt by (simp add: zero_less_mult_iff)
  then have ag: "0 < A - g" using l0 by (simp add: g_def)
  have res: "compute_dew_point t h = Inr (B * g / (A - g))"
    using bt ag l unfolding g_def q_def b_def A_def B_def
    by (simp add: compute_dew_point_def py_div_def Let_def)
  have "0 < B * A" using A0 B0 by simp
  then have "- B * (A - g) < B * g" by (simp add: algebra_simps)
  then have lo: "- B < B * g / (A - g)"
    using ag by (simp only: pos_less_divide_eq)
  have "g * b \<le> q * b"
    using l0 bt by (intro mult_right_mono) (simp_all add: g_def)
  then have "g * b \<le> A * t" by (simp only: qb)
  then have "B * g \<le> t * (A - g)" by (simp add: b_def algebra_simps)
  then have hi: "B * g / (A - g) \<le> t"
    using ag by (simp only: pos_divide_le_eq)
  show ?thesis using res lo hi unfolding B_def by blast
qed




text \<open>
  On the real numbers the second division is by zero for a humidity far above 100 at
  the temperature 0: the bound on the humidity is needed as well.
\<close>

lemma dew_point_supersaturated: "compute_dew_point 0 (100 * exp 17.62) = Inl ZeroDivisionError"
proof -
  have "1 \<le> exp (17.62::real)" by simp
  then have "(100::real) * 1 \<le> 100 * exp 17.62" by (intro mult_left_mono) simp_all
  moreover have "(0.000001::real) \<le> 100 * 1" by simp
  ultimately have "0.000001 \<le> 100 * exp (17.62::real)" by (rule order_trans [rotated])
  then have m: "max (100 * exp 17.62) 0.000001 = 100 * exp (17.62::real)"
    by (rule max_absorb1)
  show ?thesis
    unfolding compute_dew_point_def Let_def m
    by (simp add: py_div_def math_log_def)
qed

section \<open>Climatology\<close>

text \<open>
  Claim C5. The seasonal phase offset is 200 for a latitude \<open>\<ge> 0\<close> and
  \<open>(200 + 182) % 365 = 17\<close> for a latitude \<open>< 0\<close>; the mean annual temperature is
  \<open>18.0 - 0.12 * |lat|\<close>, the seasonal amplitude \<open>max(6.0, 12.0 - 0.08 * |lat|)\<close> and the
  median temperature \<open>t50 = mean + amplitude * sin(theta)\<close>, which (rounded to one decimal)
  is the median of the heat-index band. For the latitude -34.9 the offset is 17 and the
  mean is \<open>18 - 0.12 * 34.9 = 13.812\<close>, within 0.05 of 13.8.
\<close>

theorem climatology_baseline:
  "offset lat = (if lat < 0 then 17 else 200)
   \<and> mean_t lat = 18.0 - 0.12 * \<bar>lat\<bar>
   \<and> amp_t lat = max 6.0 (12.0 - 0.08 * \<bar>lat\<bar>)
   \<and> t50 lat doy = mean_t lat + amp_t lat * sin (2 * pi * (of_int (doy - offset lat) / 365))
   \<and> p50 (HI (get_percentiles lat lon doy)) = py_round (t50 lat doy) 1
   \<and> offset (- 34.9) = 17
   \<and> mean_t (- 34.9) = 18 - 0.12 * 34.9
   \<and> mean_t (- 34.9) = 13.812
   \<and> \<bar>mean_t (- 34.9) - 13.8\<bar> < 0.05"
  by (simp add: offset_def mean_t_def amp_t_def t50_def theta_def get_percentiles_def Let_def)

theorem climatology_baseline_witness:
  "offset (- 34.9) = 17 \<and> offset 45 = 200 \<and> mean_t (- 34.9) = 13.812 \<and> amp_t (- 34.9) = 9.208
   \<and> amp_t 90 = 6"
  using climatology_baseline [of "- 34.9" 278 "- 56.2"] climatology_baseline [of 45 1 0]
    climatology_baseline [of 90 1 0]
  by simp

lemma wind_p50_ge: "0.5 \<le> wind_p50 lat doy"
  by (simp add: wind_p50_def Let_def)

lemma wet_season_ge: "0 \<le> wet_season lat doy"
  by (simp add: wet_season_def)

lemma coastiness_ge: "0.3 \<le> coastiness lon"
proof -
  have "- 1 \<le> sin (lon * pi / 180)" by simp
  then show ?thesis unfolding coastiness_def by argo
qed

lemma prcp_p50_ge: "1 \<le> prcp_p50 lat lon doy"
proof -
  have "0 \<le> wet_season lat doy * coastiness lon"
    using wet_season_ge [of lat doy] coastiness_ge [of lon] by (intro mult_nonneg_nonneg) auto
  then show ?thesis by (simp add: prcp_p50_def mult.assoc)
qed

lemma py_round_half: "py_round 0.5 1 = 0.5"
  using py_round_fixed [of 5 1] by simp

lemma py_round_zero: "py_round 0 n = 0"
  using py_round_fixed [of 0 n] by simp

text \<open>
  Claim C10. For every latitude, longitude and day of the year, each of the four bands of
  \<open>get_percentiles\<close> satisfies \<open>p10 \<le> p50 \<le> p90\<close> after the rounding to one decimal; the
  p10 and the p50 of the wind are at least 0.5 and the p10 of the precipitation is at
  least 0.
\<close>

theorem percentiles_ordered:
  "p10 (HI (get_percentiles lat lon doy)) \<le> p50 (HI (get_percentiles lat lon doy))
   \<and> p50 (HI (get_percentiles lat lon doy)) \<le> p90 (HI (get_percentiles lat lon doy))
   \<and> p10 (WC (get_percentiles lat lon doy)) \<le> p50 (WC (get_percentiles lat lon doy))
   \<and> p50 (WC (get_percentiles lat lon doy)) \<le> p90 (WC (get_percentiles lat lon doy))
   \<and> p10 (WIND (get_percentiles lat lon doy)) \<le> p50 (WIND (get_percentiles lat lon doy))
   \<and> p50 (WIND (get_percentiles lat lon doy)) \<le> p90 (WIND (get_percentiles lat lon doy))
   \<and> p10 (PRCP (get_percentiles lat lon doy)) \<le> p50 (PRCP (get_percentiles lat lon doy))
   \<and> p50 (PRCP (get_percentiles lat lon doy)) \<le> p90 (PRCP (get_percentiles lat lon doy))
   \<and> 0.5 \<le> p10 (WIND (get_percentiles lat lon doy))
   \<and> 0.5 \<le> p50 (WIND (get_percentiles lat lon doy))
   \<and> 0 \<le> p10 (PRCP (get_percentiles lat lon doy))"
proof -
  let ?w = "wind_p50 lat doy" and ?p = "prcp_p50 lat lon doy" and ?s = "wet_season lat doy"
  have w: "0.5 \<le> ?w" by (rule wind_p50_ge)
  have p: "1 \<le> ?p" by (rule prcp_p50_ge)
  have s: "0 \<le> ?s" by (rule wet_season_ge)
  have hi: "py_round (t50 lat doy - 4.0) 1 \<le> py_round (t50 lat doy) 1"
      "py_round (t50 lat doy) 1 \<le> py_round (t50 lat doy + 4.0) 1"
    by (rule py_round_mono, simp)+
  have wc: "py_round (t50 lat doy - 2.0 - 6.0) 1 \<le> py_round (t50 lat doy - 2.0) 1"
      "py_round (t50 lat doy - 2.0) 1 \<le> py_round (t50 lat doy - 2.0 + 6.0) 1"
    by (rule py_round_mono, simp)+
  have wind: "py_round (max 0.5 (?w - 2.0)) 1 \<le> py_round ?w 1"
      "py_round ?w 1 \<le> py_round (?w + 3.0) 1"
    using w by (auto intro!: py_round_mono)
  have prcp: "py_round (max 0.0 (?p - 1.5)) 1 \<le> py_round ?p 1"
    using p by (auto intro!: py_round_mono)
  have "0 \<le> 6.0 * (0.6 + 0.4 * ?s)" using s by simp
  then have prcp': "py_round ?p 1 \<le> py_round (?p + 6.0 * (0.6 + 0.4 * ?s)) 1"
    by (intro py_round_mono) linarith
  have "py_round 0.5 1 \<le> py_round (max 0.5 (?w - 2.0)) 1" "py_round 0.5 1 \<le> py_round ?w 1"
    using w by (auto intro!: py_round_mono)
  then have floor_w: "0.5 \<le> py_round (max 0.5 (?w - 2.0)) 1" "0.5 \<le> py_round ?w 1"
    by (simp_all only: py_round_half)
  have "py_round 0 1 \<le> py_round (max 0.0 (?p - 1.5)) 1"
    by (intro py_round_mono) simp
  then have floor_p: "0 \<le> py_round (max 0.0 (?p - 1.5)) 1"
    by (simp only: py_round_zero)
  show ?thesis
    unfolding get_percentiles_def Let_def
    using hi wc wind prcp prcp' floor_w floor_p by simp
qed

theorem percentiles_ordered_witness:
  "get_percentiles 0 0 200 =
     \<lparr>HI = \<lparr>p10 = 14, p50 = 18, p90 = 22\<rparr>, WC = \<lparr>p10 = 10, p50 = 16, p90 = 22\<rparr>,
      WIND = \<lparr>p10 = 2.5, p50 = 4.5, p90 = 7.5\<rparr>, PRCP = \<lparr>p10 = 0, p50 = 1, p90 = 4.6\<rparr>\<rparr>"
  using percentiles_ordered [of 0 0 200]
  by (simp add: get_percentiles_def Let_def t50_def mean_t_def amp_t_def theta_def offset_def
      wind_p50_def prcp_p50_def wet_season_def coastiness_def py_round_def round_half_even_def)

section \<open>Risk classifier: \<open>probs\<close>\<close>

text \<open>
  Claim C2. For every observation, indices and percentiles, \<open>probs\<close> has exactly the five
  categories very_hot, very_cold, very_windy, very_wet and very_uncomfortable, each with
  the value 0.0 or 1.0: very_hot is 1.0 iff the heat index is above max(HI p90, 32.0);
  very_cold iff the wind chill is below min(WC p10, 5.0); very_windy iff the wind speed
  is above max(WIND p90, 10.0); very_wet iff the probability of precipitation is at least
  50 or the precipitation is at least max(PRCP p90, 5); very_uncomfortable iff the dew
  point is at least 20 or the heat index is at least 32 or the wind chill is at most 0.
\<close>

theorem risk_probs_policy:
  "\<exists>hot cold windy wet uncomfortable.
     risk_probs hi wc dp pw pct =
       [(''very_hot'', hot), (''very_cold'', cold), (''very_windy'', windy),
        (''very_wet'', wet), (''very_uncomfortable'', uncomfortable)]
     \<and> (hot = 0 \<or> hot = 1) \<and> (cold = 0 \<or> cold = 1) \<and> (windy = 0 \<or> windy = 1)
     \<and> (wet = 0 \<or> wet = 1) \<and> (uncomfortable = 0 \<or> uncomfortable = 1)
     \<and> (hot = 1 \<longleftrightarrow> hi > max (p90 (HI pct)) 32.0)
     \<and> (cold = 1 \<longleftrightarrow> wc < min (p10 (WC pct)) 5.0)
     \<and> (windy = 1 \<longleftrightarrow> wind pw > max (p90 (WIND pct)) 10.0)
     \<and> (wet = 1 \<longleftrightarrow> power_get (pop pw) 0 \<ge> 50
                     \<or> power_get (precip pw) 0 \<ge> max (p90 (PRCP pct)) 5)
     \<and> (uncomfortable = 1 \<longleftrightarrow> dp \<ge> 20 \<or> hi \<ge> 32 \<or> wc \<le> 0)"
  by (simp add: risk_probs_def float_of_bool_def)

theorem risk_probs_policy_witness:
  "risk_probs 35 10 15
     \<lparr>tmax = 30, tmin = 12, tavg = 21, rh = 70, wind = 3, precip = Some 0, pop = Some 10,
      lead_hours = Some 72, spread = Some 0.25\<rparr>
     \<lparr>HI = \<lparr>p10 = 10, p50 = 14, p90 = 18\<rparr>, WC = \<lparr>p10 = 6, p50 = 12, p90 = 18\<rparr>,
      WIND = \<lparr>p10 = 2.5, p50 = 4.5, p90 = 7.5\<rparr>, PRCP = \<lparr>p10 = 0, p50 = 1, p90 = 4.6\<rparr>\<rparr>
   = [(''very_hot'', 1), (''very_cold'', 0), (''very_windy'', 0), (''very_wet'', 0),
      (''very_uncomfortable'', 1)]"
  using risk_probs_policy [of 35 10 15
     "\<lparr>tmax = 30, tmin = 12, tavg = 21, rh = 70, wind = 3, precip = Some 0, pop = Some 10,
      lead_hours = Some 72, spread = Some 0.25\<rparr>"
     "\<lparr>HI = \<lparr>p10 = 10, p50 = 14, p90 = 18\<rparr>, WC = \<lparr>p10 = 6, p50 = 12, p90 = 18\<rparr>,
      WIND = \<lparr>p10 = 2.5, p50 = 4.5, p90 = 7.5\<rparr>, PRCP = \<lparr>p10 = 0, p50 = 1, p90 = 4.6\<rparr>\<rparr>"]
  by (simp add: risk_probs_def float_of_bool_def power_get_def)

section \<open>Explanation: \<open>top_risks\<close>\<close>

lemma top_risks_candidates:
  "[k. (k, v) \<leftarrow> fused, v > c] = map fst (filter (\<lambda>(k, v). v > c) fused)"
  by (induction fused) auto

lemma dict_item_present: "distinct (map fst d) \<Longrightarrow> (k, v) \<in> set d \<Longrightarrow> dict_item d k = v"
  by (simp add: dict_item_def)

lemma candidates_filter_keys:
  assumes "distinct (map fst d)"
  shows "map fst (filter (\<lambda>(k, v). v > c) d) = filter (\<lambda>k. dict_item d k > c) (map fst d)"
proof -
  have "filter (\<lambda>(k, v). v > c) d = filter (\<lambda>p. dict_item d (fst p) > c) d"
    by (rule filter_cong) (auto simp: dict_item_present [OF assms])
  then show ?thesis by (simp add: filter_map comp_def)
qed

lemma position_sorted:
  "distinct ks \<Longrightarrow> sorted_wrt (\<lambda>a b. position ks a < position ks b) ks"
proof (induction ks)
  case Nil
  then show ?case by simp
next
  case (Cons k ks)
  then have "sorted_wrt (\<lambda>a b. position ks a < position ks b) ks" by simp
  then have "sorted_wrt (\<lambda>a b. position (k # ks) a < position (k # ks) b) ks"
    using Cons.prems by (rule_tac sorted_wrt_mono_rel) (auto simp: position_def)
  moreover have "\<forall>b \<in> set ks. position (k # ks) k < position (k # ks) b"
    using Cons.prems by (auto simp: position_def)
  ultimately show ?case by simp
qed

lemma insort_key_ties:
  assumes "sorted_wrt (\<lambda>a b. f a < f b \<or> (f a = f b \<and> pos b < pos a)) zs"
    and "\<forall>z \<in> set zs. pos z < (pos y :: nat)"
  shows "sorted_wrt (\<lambda>a b. f a < f b \<or> (f a = f b \<and> pos b < pos a)) (insort_key f y zs)"
  using assms
proof (induction zs)
  case Nil
  then show ?case by simp
next
  case (Cons z zs)
  show ?case
  proof (cases "f y \<le> f z")
    case True
    have "f y < f w \<or> (f y = f w \<and> pos w < pos y)" if "w \<in> set (z # zs)" for w
    proof -
      have "f z \<le> f w" using that Cons.prems(1) by auto
      with True have "f y \<le> f w" by simp
      moreover have "pos w < pos y" using that Cons.prems(2) by auto
      ultimately show ?thesis by auto
    qed
    with True Cons.prems(1) show ?thesis by simp
  next
    case False
    then have "f z < f y" by simp
    moreover have "sorted_wrt (\<lambda>a b. f a < f b \<or> (f a = f b \<and> pos b < pos a)) (insort_key f y zs)"
      using Cons.prems by (intro Cons.IH) auto
    ultimately show ?thesis
      using False Cons.prems(1) by (auto simp: set_insort_key)
  qed
qed

lemma sort_key_ties:
  "sorted_wrt (\<lambda>a b. pos b < (pos a :: nat)) ys \<Longrightarrow>
   sorted_wrt (\<lambda>a b. f a < f b \<or> (f a = f b \<and> pos b < pos a)) (sort_key f ys)"
proof (induction ys)
  case Nil
  then show ?case by simp
next
  case (Cons y ys)
  then have "sorted_wrt (\<lambda>a b. f a < f b \<or> (f a = f b \<and> pos b < pos a)) (sort_key f ys)"
    by simp
  moreover have "\<forall>z \<in> set (sort_key f ys). pos z < pos y"
    using Cons.prems by simp
  ultimately show ?case
    by (simp add: insort_key_ties)
qed

lemma sorted_reverse_ties:
  assumes "sorted_wrt (\<lambda>a b. pos a < (pos b :: nat)) xs"
  shows "sorted_wrt (\<lambda>a b. f b < f a \<or> (f a = f b \<and> pos a < pos b)) (sorted_reverse f xs)"
proof -
  have "sorted_wrt (\<lambda>a b. pos b < pos a) (rev xs)"
    using assms by (simp add: sorted_wrt_rev)
  then have "sorted_wrt (\<lambda>a b. f a < f b \<or> (f a = f b \<and> pos b < pos a)) (sort_key f (rev xs))"
    by (rule sort_key_ties)
  then have "sorted_wrt (\<lambda>b a. f a < f b \<or> (f a = f b \<and> pos b < pos a)) (sorted_reverse f xs)"
    by (simp add: sorted_reverse_def sorted_wrt_rev)
  then show ?thesis
    by (rule sorted_wrt_mono_rel [rotated]) auto
qed

lemma set_sorted_reverse: "set (sorted_reverse f xs) = set xs"
  by (simp add: sorted_reverse_def)

lemma distinct_sorted_reverse: "distinct (sorted_reverse f xs) = distinct xs"
  by (simp add: sorted_reverse_def)

lemma top_risks_lookup:
  "k \<in> set [k. (k, v) \<leftarrow> fused, v > c] \<Longrightarrow> map_of fused k \<noteq> None"
proof -
  assume "k \<in> set [k. (k, v) \<leftarrow> fused, v > c]"
  then have "k \<in> fst ` set fused"
    unfolding top_risks_candidates by auto
  then show ?thesis by (simp add: map_of_eq_None_iff)
qed

text \<open>
  Claim C8. For every fused probability map (a dict: distinct keys), \<open>top_risks\<close> is the
  first two elements (fewer when there are fewer) of the list that consists exactly of
  the categories whose fused probability is strictly greater than 0.3, each once, in
  descending order of fused probability, categories of equal probability in the order of
  their positions among the keys of the map.
\<close>

theorem top_risks_ranking:
  assumes "distinct (map fst fused)"
  shows "\<exists>ys. top_risks fused = take 2 ys
            \<and> set ys = {k \<in> set (map fst fused). dict_item fused k > 0.3}
            \<and> distinct ys
            \<and> sorted_wrt (ranks_before fused) ys"
proof -
  let ?ks = "map fst fused"
  let ?xs = "filter (\<lambda>k. dict_item fused k > 0.3) ?ks"
  let ?ys = "sorted_reverse (dict_item fused) ?xs"
  have cand: "[k. (k, v) \<leftarrow> fused, v > 0.3] = ?xs"
    by (simp only: top_risks_candidates candidates_filter_keys [OF assms])
  have "sorted_wrt (\<lambda>a b. position ?ks a < position ?ks b) ?xs"
    using assms by (intro sorted_wrt_filter position_sorted)
  then have "sorted_wrt (ranks_before fused) ?ys"
    unfolding ranks_before_def by (rule sorted_reverse_ties)
  moreover have "top_risks fused = take 2 ?ys"
    by (simp only: top_risks_def cand)
  moreover have "set ?ys = {k \<in> set ?ks. dict_item fused k > 0.3}"
    by (simp add: set_sorted_reverse)
  moreover have "distinct ?ys"
    using assms by (simp add: distinct_sorted_reverse)
  ultimately show ?thesis by blast
qed

theorem top_risks_ranking_witness:
  "distinct (map fst [(''very_hot'', 0.84::real), (''very_cold'', 0.05), (''very_windy'', 0.98),
       (''very_wet'', 0.84), (''very_uncomfortable'', 0.84)])
   \<and> top_risks [(''very_hot'', 0.84), (''very_cold'', 0.05), (''very_windy'', 0.98),
       (''very_wet'', 0.84), (''very_uncomfortable'', 0.84)] = [''very_windy'', ''very_hot'']"
  using top_risks_ranking [of "[(''very_hot'', 0.84), (''very_cold'', 0.05), (''very_windy'', 0.98),
       (''very_wet'', 0.84), (''very_uncomfortable'', 0.84)]"]
  by (simp add: top_risks_def sorted_reverse_def dict_item_def)

section \<open>The query\<close>

lemma risk_probs_keys:
  "map fst (risk_probs hi wc dp pw pct)
   = [''very_hot'', ''very_cold'', ''very_windy'', ''very_wet'', ''very_uncomfortable'']"
  by (simp add: risk_probs_def)

lemma risk_probs_binary: "v \<in> snd ` set (risk_probs hi wc dp pw pct) \<Longrightarrow> v = 0 \<or> v = 1"
  by (auto simp: risk_probs_def float_of_bool_def)

lemma fuse_value_binary_range:
  assumes "v = 0 \<or> v = 1"
  shows "0.05 \<le> fuse_value (alpha lead) v \<and> fuse_value (alpha lead) v \<le> 1"
  using assms fuse_value_zero [of "alpha lead"] fuse_value_one_bounds [of "alpha lead"]
    alpha_bounds [of lead]
  by auto

text \<open>
  End to end: for an observation with an average temperature above -243.12 and a
  humidity up to 100, \<open>query\<close> returns the fused map with the five categories in the
  canonical order, every fused probability in [0.05, 1], and the \<open>top_risks\<close> of that map.
\<close>

lemma query_categories:
  assumes "- 243.12 < tavg pw" and "rh pw \<le> 100"
  shows "\<exists>fused. query lat lon doy pw = Inr (fused, top_risks fused)
           \<and> map fst fused
               = [''very_hot'', ''very_cold'', ''very_windy'', ''very_wet'', ''very_uncomfortable'']
           \<and> (\<forall>v \<in> snd ` set fused. 0.05 \<le> v \<and> v \<le> 1)"
proof -
  obtain dp where dp: "compute_dew_point (tavg pw) (rh pw) = Inr dp"
    using dew_point_defined [OF assms] by blast
  define probs where "probs = risk_probs (compute_heat_index (tmax pw) (rh pw))
     (compute_wind_chill (tmin pw) (wind pw)) dp pw (get_percentiles lat lon doy)"
  define lead where "lead = power_get (lead_hours pw) 72"
  define fused where "fused = fuse_probabilities probs lead"
  have keys: "map fst probs
     = [''very_hot'', ''very_cold'', ''very_windy'', ''very_wet'', ''very_uncomfortable'']"
    unfolding probs_def by (rule risk_probs_keys)
  then have "distinct (map fst probs)" by simp
  then have eq: "fused = map (\<lambda>(k, v). (k, fuse_value (alpha lead) v)) probs"
    unfolding fused_def by (rule fuse_probabilities_map)
  have q: "query lat lon doy pw = Inr (fused, top_risks fused)"
    by (simp add: query_def dp Let_def fused_def probs_def lead_def)
  have k: "map fst fused
     = [''very_hot'', ''very_cold'', ''very_windy'', ''very_wet'', ''very_uncomfortable'']"
    using keys by (simp add: eq case_prod_unfold comp_def)
  have r: "\<forall>w \<in> snd ` set fused. 0.05 \<le> w \<and> w \<le> 1"
  proof
    fix w assume "w \<in> snd ` set fused"
    then obtain v where "v \<in> snd ` set probs" and w: "w = fuse_value (alpha lead) v"
      by (force simp: eq)
    then have "v = 0 \<or> v = 1" unfolding probs_def by (rule_tac risk_probs_binary)
    then show "0.05 \<le> w \<and> w \<le> 1" unfolding w by (rule fuse_value_binary_range)
  qed
  from q k r show ?thesis by (intro exI [of _ fused] conjI)
qed

text \<open>The dew point is computed from the average temperature, so its error is \<open>query\<close>'s.\<close>

lemma query_raises: "tavg pw = - 243.12 \<Longrightarrow> query lat lon doy pw = Inl ZeroDivisionError"
  by (simp add: query_def compute_dew_point_def py_div_def)

text \<open>
  The scenario of the worked example: a maximum temperature of 30 at a humidity of 70
  has a heat index above the threshold 32.
\<close>

lemma heat_index_scenario: "32 < compute_heat_index 30 70"
  by (simp add: compute_heat_index_def)

end
